theory Spec2Isabelle
  imports Main "HOL-Library.List_Lexorder" "HOL-Library.Char_ord" "HOL-Library.Multiset"
begin

section \<open>Python strings\<close>

text \<open>
  A Python \<open>str\<close> is a sequence of code points; \<open>len\<close> counts code points. The model
  uses \<^typ>\<open>string\<close> and reads each \<^typ>\<open>char\<close> as a code point in the range 0..255.
  The whitespace characters of \<open>str.strip()\<close> and \<open>str.split()\<close> (those for which
  \<open>str.isspace\<close> holds) in that range are TAB, LF, VT, FF, CR, the separators
  0x1C..0x1F, SPACE, NEL (0x85) and NBSP (0xA0).
\<close>

definition isspace :: "char \<Rightarrow> bool" where
  "isspace c \<longleftrightarrow> c \<in> set [CHR 0x09, CHR 0x0A, CHR 0x0B, CHR 0x0C, CHR 0x0D,
                         CHR 0x1C, CHR 0x1D, CHR 0x1E, CHR 0x1F, CHR 0x20,
                         CHR 0x85, CHR 0xA0]"

text \<open>\<open>s.strip()\<close>: drop the leading and the trailing whitespace.\<close>

definition str_lstrip :: "string \<Rightarrow> string" where
  "str_lstrip s = dropWhile isspace s"

definition str_rstrip :: "string \<Rightarrow> string" where
  "str_rstrip s = rev (dropWhile isspace (rev s))"

definition str_strip :: "string \<Rightarrow> string" where
  "str_strip s = str_rstrip (str_lstrip s)"

text \<open>
  \<open>s.split()\<close> with no separator: the maximal runs of non-whitespace characters, in
  order. \<open>split_from w cs\<close> scans \<open>cs\<close> with \<open>w\<close> the word read so far.
\<close>

fun split_from :: "string \<Rightarrow> string \<Rightarrow> string list" where
  "split_from w [] = (if w = [] then [] else [w])"
| "split_from w (c # cs) =
     (if isspace c then (if w = [] then split_from [] cs else w # split_from [] cs)
      else split_from (w @ [c]) cs)"

definition str_split :: "string \<Rightarrow> string list" where
  "str_split s = split_from [] s"

text \<open>\<open>sep.join(ws)\<close>.\<close>

fun str_join :: "string \<Rightarrow> string list \<Rightarrow> string" where
  "str_join sep [] = []"
| "str_join sep [w] = w"
| "str_join sep (w # v # ws) = w @ sep @ str_join sep (v # ws)"

text \<open>\<open>s.replace(old, new)\<close> for a pattern \<open>old\<close> of one character.\<close>

definition str_replace :: "char \<Rightarrow> string \<Rightarrow> string \<Rightarrow> string" where
  "str_replace old new s = concat (map (\<lambda>c. if c = old then new else [c]) s)"

text \<open>
  The slice \<open>xs[:n]\<close> for a Python integer \<open>n\<close>: the first \<open>n\<close> elements when
  \<open>n \<ge> 0\<close>, all but the last \<open>-n\<close> elements when \<open>n < 0\<close>.
\<close>

definition slice_to :: "int \<Rightarrow> 'a list \<Rightarrow> 'a list" where
  "slice_to n xs = (if n < 0 then take (nat (int (length xs) + n)) xs else take (nat n) xs)"

section \<open>Flash messages and previews\<close>

definition flash_message :: "string \<Rightarrow> string \<Rightarrow> string" where
  \<open>flash_message message category =
     ''<div id="flash-messages" hx-swap-oob="innerHTML">''
     @ ''<div class="flash flash-'' @ category @ ''">'' @ message @ ''</div>''
     @ ''</div>''\<close>

definition get_post_preview :: "string \<Rightarrow> int \<Rightarrow> string" where
  "get_post_preview body max_length =
     (let plain = str_replace (CHR ''>'') []
                    (str_replace (CHR ''`'') []
                      (str_replace (CHR ''*'') []
                        (str_replace (CHR ''#'') [] body)));
          plain = str_join '' '' (str_split plain)
      in if int (length plain) > max_length
         then slice_to max_length plain @ ''...''
         else plain)"

text \<open>
  The preview as the specification words it, to be compared with \<open>get_post_preview\<close>:
  every marker character is removed, every run of whitespace becomes one space, both
  ends are trimmed, and a text longer than \<open>max_length\<close> is cut to its first
  \<open>max_length\<close> characters followed by three dots.
\<close>

definition strip_markers :: "string \<Rightarrow> string" where
  "strip_markers s = filter (\<lambda>c. c \<notin> {CHR ''#'', CHR ''*'', CHR ''`'', CHR ''>''}) s"

fun squeeze :: "string \<Rightarrow> string" where
  "squeeze [] = []"
| "squeeze [c] = (if isspace c then '' '' else [c])"
| "squeeze (c # d # cs) =
     (if isspace c then (if isspace d then squeeze (d # cs) else CHR '' '' # squeeze (d # cs))
      else c # squeeze (d # cs))"

definition collapse_whitespace :: "string \<Rightarrow> string" where
  "collapse_whitespace s = str_strip (squeeze s)"

definition preview_spec :: "string \<Rightarrow> int \<Rightarrow> string" where
  "preview_spec txt max_length =
     (let collapsed = collapse_whitespace (strip_markers txt)
      in if int (length collapsed) > max_length
         then take (nat max_length) collapsed @ ''...''
         else collapsed)"

section \<open>The posts relation\<close>

text \<open>
  A row of the table \<open>posts\<close> (a \<open>sqlite3.Row\<close>). The timestamps are the ISO-8601
  strings produced by \<open>datetime.now().isoformat()\<close>; SQLite stores them as text and
  compares them as text, which is the lexicographic order on \<^typ>\<open>string\<close>.
\<close>

record post =
  post_id :: nat
  title :: string
  body :: string
  created_at :: string
  updated_at :: string

text \<open>
  The database: the rows of \<open>posts\<close> in the order of a table scan (ascending rowid),
  and the counter that \<open>AUTOINCREMENT\<close> keeps of the largest rowid ever assigned.
  Row ids are naturals; faults of the storage layer are not modelled.
\<close>

record store =
  rows :: "post list"
  seq :: nat

text \<open>
  The exceptions that escape a handler: \<open>TypeError\<close> from subscripting \<open>None\<close>, and
  \<open>OverflowError\<close> from the \<open>sqlite3\<close> module, which passes a Python integer to
  SQLite as a signed 64-bit integer and refuses one of \<open>2 ^ 63\<close> or more. The check
  is written out where Delete binds the id of the route; the lookups by id and the
  \<open>UPDATE\<close> are modelled on the rows that they match.
\<close>

datatype py_error = TypeError | OverflowError

definition empty_db :: store where
  "empty_db = \<lparr>rows = [], seq = 0\<rparr>"

text \<open>
  The schema declares \<open>id INTEGER PRIMARY KEY AUTOINCREMENT\<close>: ids are unique and a
  table scan meets them in ascending order.
\<close>

definition wf_store :: "store \<Rightarrow> bool" where
  "wf_store s \<longleftrightarrow> sorted_wrt (<) (map post_id (rows s))"

text \<open>
  The id given to the next inserted row: one more than the largest id that is, or ever
  was, in the table.
\<close>

definition next_rowid :: "store \<Rightarrow> nat" where
  "next_rowid s = Suc (foldr max (map post_id (rows s)) (seq s))"

text \<open>
  \<open>INSERT INTO posts (title, body, created_at, updated_at) VALUES (?, ?, ?, ?)\<close>.
  The columns \<open>title\<close> and \<open>body\<close> are \<open>TEXT NOT NULL\<close>; every bound value is a
  \<open>str\<close>, never \<open>None\<close>, and the schema has no other constraint on them.
\<close>

definition sql_insert :: "store \<Rightarrow> string \<Rightarrow> string \<Rightarrow> string \<Rightarrow> string \<Rightarrow> store" where
  "sql_insert s t b c u =
     \<lparr>rows = rows s @ [\<lparr>post_id = next_rowid s, title = t, body = b,
                          created_at = c, updated_at = u\<rparr>],
      seq = next_rowid s\<rparr>"

text \<open>\<open>UPDATE posts SET title = ?, body = ?, updated_at = ? WHERE id = ?\<close>.\<close>

definition sql_update :: "store \<Rightarrow> string \<Rightarrow> string \<Rightarrow> string \<Rightarrow> nat \<Rightarrow> store" where
  "sql_update s t b u i =
     s\<lparr>rows := map (\<lambda>p. if post_id p = i then p\<lparr>title := t, body := b, updated_at := u\<rparr>
                         else p) (rows s)\<rparr>"

text \<open>
  \<open>DELETE FROM posts WHERE id = ?\<close> with the id of the route, any natural number that
  the URL spells: an id that does not fit a signed 64-bit integer cannot be bound, the
  call raises \<open>OverflowError\<close> and the table is not touched.
\<close>

definition sql_delete :: "store \<Rightarrow> nat \<Rightarrow> py_error + store" where
  "sql_delete s i =
     (if i < 2 ^ 63 then Inr (s\<lparr>rows := filter (\<lambda>p. post_id p \<noteq> i) (rows s)\<rparr>)
      else Inl OverflowError)"

text \<open>\<open>SELECT * FROM posts WHERE id = ?\<close> followed by \<open>fetchone()\<close>.\<close>

definition select_by_id :: "store \<Rightarrow> nat \<Rightarrow> post option" where
  "select_by_id s i = find (\<lambda>p. post_id p = i) (rows s)"

text \<open>
  \<open>SELECT * FROM posts ORDER BY created_at DESC\<close> followed by \<open>fetchall()\<close>. There is
  no index on \<open>created_at\<close>: SQLite scans the table in rowid order and passes the rows
  through its sorter, which is a stable merge sort. \<open>insert_desc\<close> puts a row before
  the later-scanned rows whose \<open>created_at\<close> is not greater than its own.
\<close>

fun insert_desc :: "post \<Rightarrow> post list \<Rightarrow> post list" where
  "insert_desc p [] = [p]"
| "insert_desc p (q # qs) =
     (if created_at p < created_at q then q # insert_desc p qs else p # q # qs)"

definition select_all_desc :: "store \<Rightarrow> post list" where
  "select_all_desc s = foldr insert_desc (rows s) []"

section \<open>Responses\<close>

text \<open>
  The dictionaries that the list handlers build: the columns of the row and its preview.
\<close>

record listed_post = post +
  preview :: string

definition with_preview :: "post \<Rightarrow> listed_post" where
  "with_preview p =
     \<lparr>post_id = post_id p, title = title p, body = body p,
      created_at = created_at p, updated_at = updated_at p,
      preview = get_post_preview (body p) 200\<rparr>"

primrec posts_with_preview :: "post list \<Rightarrow> listed_post list" where
  "posts_with_preview [] = []"
| "posts_with_preview (p # ps) = with_preview p # posts_with_preview ps"

text \<open>
  The Jinja templates are not part of the sources. A rendered template is represented
  by its name and the context that the handler passes to \<open>render_template\<close>; a response
  body is the sequence of the fragments that the handler concatenates.
\<close>

datatype fragment =
    Index_html "listed_post list"
  | Post_form_html "post option"
  | Post_html post string
  | Confirm_delete_html post
  | Markup string

record response =
  status_code :: nat
  headers :: "(string \<times> string) list"
  payload :: "fragment list"

text \<open>
  \<open>make_response(html)\<close>, and a handler that returns a string: status 200 and no
  header set by the application.
\<close>

definition make_response :: "fragment list \<Rightarrow> response" where
  "make_response html = \<lparr>status_code = 200, headers = [], payload = html\<rparr>"

text \<open>\<open>response.headers[k] = v\<close>.\<close>

definition set_header :: "string \<Rightarrow> string \<Rightarrow> response \<Rightarrow> response" where
  "set_header k v r = r\<lparr>headers := (k, v) # filter (\<lambda>h. fst h \<noteq> k) (headers r)\<rparr>"

type_synonym outcome = "py_error + response"

text \<open>
  \<open>markdown.markdown\<close> is a library function of the text and the extension names; the
  handlers take it as the parameter \<open>md\<close>.
\<close>

type_synonym markdown = "string \<Rightarrow> string list \<Rightarrow> string"

definition render_markdown :: "markdown \<Rightarrow> string \<Rightarrow> string" where
  "render_markdown md text = md text [''fenced_code'', ''tables'']"

text \<open>
  \<open>request.form\<close> is a multi-dict; \<open>get(k, d)\<close> is the first value stored under \<open>k\<close>,
  or \<open>d\<close> when there is none.
\<close>

type_synonym form = "(string \<times> string) list"

definition form_get :: "form \<Rightarrow> string \<Rightarrow> string \<Rightarrow> string" where
  "form_get f k d = (case map_of f k of None \<Rightarrow> d | Some v \<Rightarrow> v)"

section \<open>Request handlers\<close>

text \<open>
  Each handler takes the database and returns the outcome (a response, or the exception
  that escapes the handler) with the database after the request. \<open>now\<close> is the value
  of \<open>datetime.now().isoformat()\<close> read by the request.
\<close>

definition index :: "store \<Rightarrow> outcome \<times> store" where
  "index s =
     (let posts = select_all_desc s
      in (Inr (make_response [Index_html (posts_with_preview posts)]), s))"

definition new_post :: "store \<Rightarrow> outcome \<times> store" where
  "new_post s = (Inr (make_response [Post_form_html None]), s)"

definition create_post :: "string \<Rightarrow> store \<Rightarrow> form \<Rightarrow> outcome \<times> store" where
  "create_post now s f =
     (let title = str_strip (form_get f ''title'' []);
          body = str_strip (form_get f ''body'' [])
      in if title = [] \<or> body = [] then
           (Inr ((make_response
                    [Markup (flash_message ''Title and body are required.'' ''error'')])
                 \<lparr>status_code := 422\<rparr>), s)
         else
           let s' = sql_insert s title body now now;
               posts = select_all_desc s';
               html = [Index_html (posts_with_preview posts)]
                      @ [Markup (flash_message ''Post created successfully!'' ''success'')]
           in (Inr (set_header ''HX-Push-Url'' ''/'' (make_response html)), s'))"

definition view_post :: "markdown \<Rightarrow> store \<Rightarrow> nat \<Rightarrow> outcome \<times> store" where
  "view_post md s i =
     (case select_by_id s i of
        None \<Rightarrow>
          (Inr ((make_response [Markup (flash_message ''Post not found.'' ''error'')])
                \<lparr>status_code := 404\<rparr>), s)
      | Some post \<Rightarrow>
          (let rendered_body = render_markdown md (body post)
           in (Inr (make_response [Post_html post rendered_body]), s)))"

definition edit_post :: "store \<Rightarrow> nat \<Rightarrow> outcome \<times> store" where
  "edit_post s i =
     (case select_by_id s i of
        None \<Rightarrow>
          (Inr ((make_response [Markup (flash_message ''Post not found.'' ''error'')])
                \<lparr>status_code := 404\<rparr>), s)
      | Some post \<Rightarrow> (Inr (make_response [Post_form_html (Some post)]), s))"

text \<open>
  After the \<open>UPDATE\<close> the handler reads the row back and subscripts the result of
  \<open>fetchone()\<close> without testing it: on \<open>None\<close> the subscript raises \<open>TypeError\<close>.
\<close>

definition update_post :: "markdown \<Rightarrow> string \<Rightarrow> store \<Rightarrow> nat \<Rightarrow> form \<Rightarrow> outcome \<times> store" where
  "update_post md now s i f =
     (let title = str_strip (form_get f ''title'' []);
          body = str_strip (form_get f ''body'' [])
      in if title = [] \<or> body = [] then
           (Inr ((make_response
                    [Markup (flash_message ''Title and body are required.'' ''error'')])
                 \<lparr>status_code := 422\<rparr>), s)
         else
           let s' = sql_update s title body now i
           in case select_by_id s' i of
                None \<Rightarrow> (Inl TypeError, s')
              | Some post \<Rightarrow>
                  (let rendered_body = render_markdown md (post.body post);
                       html = [Post_html post rendered_body]
                              @ [Markup (flash_message ''Post updated successfully!'' ''success'')]
                   in (Inr (make_response html), s')))"

definition delete_post :: "store \<Rightarrow> nat \<Rightarrow> outcome \<times> store" where
  "delete_post s i =
     (case sql_delete s i of
        Inl e \<Rightarrow> (Inl e, s)
      | Inr s' \<Rightarrow>
          (let posts = select_all_desc s';
               html = [Index_html (posts_with_preview posts)]
                      @ [Markup (flash_message ''Post deleted.'' ''success'')]
           in (Inr (set_header ''HX-Push-Url'' ''/'' (make_response html)), s')))"

definition confirm_delete :: "store \<Rightarrow> nat \<Rightarrow> outcome \<times> store" where
  "confirm_delete s i =
     (case select_by_id s i of
        None \<Rightarrow>
          (Inr ((make_response [Markup (flash_message ''Post not found.'' ''error'')])
                \<lparr>status_code := 404\<rparr>), s)
      | Some post \<Rightarrow> (Inr (make_response [Confirm_delete_html post]), s))"

text \<open>The routes of the application.\<close>

datatype request =
    GET_index
  | GET_new_post
  | POST_posts form
  | GET_post nat
  | GET_edit nat
  | PUT_post nat form
  | DELETE_post nat
  | GET_confirm_delete nat

fun handle :: "markdown \<Rightarrow> string \<Rightarrow> store \<Rightarrow> request \<Rightarrow> outcome \<times> store" where
  "handle md now s GET_index = index s"
| "handle md now s GET_new_post = new_post s"
| "handle md now s (POST_posts f) = create_post now s f"
| "handle md now s (GET_post i) = view_post md s i"
| "handle md now s (GET_edit i) = edit_post s i"
| "handle md now s (PUT_post i f) = update_post md now s i f"
| "handle md now s (DELETE_post i) = delete_post s i"
| "handle md now s (GET_confirm_delete i) = confirm_delete s i"

section \<open>Start-up\<close>

text \<open>The sample posts of \<open>init_db\<close>, each a title and a body.\<close>

definition seed_posts :: "(string \<times> string) list" where
  \<open>seed_posts =
     [(''Welcome to the HTMX Blog'',
       ''# Hello, World!\<newline>\<newline>''
       @ ''This is a blog built with **Flask** and **HTMX**. ''
       @ ''No frontend framework, no build step, just clean HTML ''
       @ ''enhanced with hypermedia.\<newline>\<newline>''
       @ ''## Features\<newline>\<newline>''
       @ ''- Create, edit, and delete posts\<newline>''
       @ ''- Markdown rendering\<newline>''
       @ ''- Dynamic updates without page reloads\<newline>''
       @ ''- Clean, minimal design\<newline>\<newline>''
       @ ''Enjoy writing!''),
      (''Why HTMX?'',
       ''HTMX lets you build modern, dynamic web applications ''
       @ ''without writing JavaScript.\<newline>\<newline>''
       @ ''Instead of shipping a massive JS bundle to the browser, ''
       @ ''you return **HTML fragments** from the server and let HTMX ''
       @ ''swap them into the page.\<newline>\<newline>''
       @ ''### The philosophy\<newline>\<newline>''
       @ ''> Hypermedia as the engine of application state.\<newline>\<newline>''
       @ ''It's REST the way it was meant to be. Your server returns ''
       @ ''representations, your client renders them. Simple.''),
      (''Markdown Tips'',
       ''This blog supports **Markdown** for formatting your posts. ''
       @ ''Here are some tips:\<newline>\<newline>''
       @ ''### Text Formatting\<newline>\<newline>''
       @ ''- **Bold** with `**double asterisks**`\<newline>''
       @ ''- *Italic* with `*single asterisks*`\<newline>''
       @ ''- `Code` with backticks\<newline>\<newline>''
       @ ''### Code Blocks\<newline>\<newline>''
       @ ''```python\<newline>''
       @ ''def hello():\<newline>''
       @ ''    print("Hello from the blog!")\<newline>''
       @ ''```\<newline>\<newline>''
       @ ''### Links\<newline>\<newline>''
       @ ''[Like this](https://example.com)\<newline>\<newline>''
       @ ''Happy writing!'')]\<close>

text \<open>
  \<open>init_db\<close>: the table is created if it does not exist, and the sample posts are
  inserted, all with the same timestamp, if the table has no row.
\<close>

fun insert_seeds :: "string \<Rightarrow> store \<Rightarrow> (string \<times> string) list \<Rightarrow> store" where
  "insert_seeds now s [] = s"
| "insert_seeds now s (post # posts) =
     insert_seeds now (sql_insert s (fst post) (snd post) now now) posts"

definition init_db :: "string \<Rightarrow> store \<Rightarrow> store" where
  "init_db now s = (if length (rows s) = 0 then insert_seeds now s seed_posts else s)"

text \<open>
  The databases that the application can reach: it starts from \<open>init_db\<close> on a new
  database file and then serves requests.
\<close>

inductive reachable :: "markdown \<Rightarrow> store \<Rightarrow> bool" for md :: markdown where
  start: "reachable md (init_db now empty_db)"
| step: "reachable md s \<Longrightarrow> reachable md (snd (handle md now s req))"

section \<open>Properties of a listing and of the stored rows\<close>

text \<open>
  A listing is newest first: \<open>created_at\<close> never increases along it, and of two rows
  with the same \<open>created_at\<close> the one with the smaller id comes first.
\<close>

definition newest_first :: "('a post_scheme) list \<Rightarrow> bool" where
  "newest_first ps \<longleftrightarrow>
     sorted_wrt (\<lambda>p q. created_at q \<le> created_at p \<and>
                        (created_at p = created_at q \<longrightarrow> post_id p < post_id q)) ps"

text \<open>\<open>ps\<close> lists the database \<open>s\<close>: exactly its rows, each with its preview, newest first.\<close>

definition listing_of :: "store \<Rightarrow> listed_post list \<Rightarrow> bool" where
  "listing_of s ps \<longleftrightarrow> newest_first ps \<and> mset ps = image_mset with_preview (mset (rows s))"

definition nonempty_fields :: "store \<Rightarrow> bool" where
  "nonempty_fields s \<longleftrightarrow> list_all (\<lambda>p. title p \<noteq> [] \<and> body p \<noteq> []) (rows s)"

section \<open>Example data\<close>

definition example_md :: markdown where
  "example_md text extensions = ''<p>'' @ text @ ''</p>''"

text \<open>Posts 1 and 2 were created at the same instant; post 3 has been deleted.\<close>

definition example_db :: store where
  "example_db =
     \<lparr>rows = [\<lparr>post_id = 1, title = ''First'', body = ''# One'',
                created_at = ''2024-05-01T10:00:00'', updated_at = ''2024-05-01T10:00:00''\<rparr>,
               \<lparr>post_id = 2, title = ''Second'', body = ''two'',
                created_at = ''2024-05-01T10:00:00'', updated_at = ''2024-05-01T10:00:00''\<rparr>,
               \<lparr>post_id = 4, title = ''Fourth'', body = ''four'',
                created_at = ''2024-05-02T09:30:00.250000'',
                updated_at = ''2024-05-02T09:45:00''\<rparr>],
      seq = 4\<rparr>"

text \<open>
  A post written and edited in the hour before the local clock is set back from 02:00
  to 01:00.
\<close>

definition clock_db :: store where
  "clock_db =
     \<lparr>rows = [\<lparr>post_id = 1, title = ''Night'', body = ''shift'',
                created_at = ''2024-11-03T01:30:00'', updated_at = ''2024-11-03T01:59:00''\<rparr>],
      seq = 1\<rparr>"

definition example_form :: form where
  "example_form = [(''title'', '' Hello ''), (''body'', ''World\<newline>'')]"

section \<open>Strings: the preview refines its specification\<close>

lemma isspace_space: "isspace (CHR '' '')"
  by (simp add: isspace_def)

lemma str_strip_Nil: "str_strip [] = []"
  by (simp add: str_strip_def str_lstrip_def str_rstrip_def)

lemma squeeze_nonspace: "\<not> isspace c \<Longrightarrow> squeeze (c # cs) = c # squeeze cs"
  by (cases cs) simp_all

lemma squeeze_space: "isspace c \<Longrightarrow> squeeze (c # cs) = CHR '' '' # str_lstrip (squeeze cs)"
proof (induction cs arbitrary: c)
  case Nil
  then show ?case by (simp add: str_lstrip_def)
next
  case (Cons d ds)
  show ?case
  proof (cases "isspace d")
    case True
    with Cons.IH [of d] Cons.prems show ?thesis
      by (simp add: str_lstrip_def isspace_space)
  next
    case False
    with Cons.prems show ?thesis
      by (simp add: str_lstrip_def squeeze_nonspace)
  qed
qed

lemma str_rstrip_Cons:
  "str_rstrip (c # x) = (if str_rstrip x = [] \<and> isspace c then [] else c # str_rstrip x)"
  by (auto simp: str_rstrip_def dropWhile_append dropWhile_eq_Nil_conv)

lemma split_from_words_nonempty: "v \<in> set (split_from w s) \<Longrightarrow> v \<noteq> []"
  by (induction s arbitrary: w) (auto split: if_splits)

lemma str_join_Cons:
  "str_join sep (w # ws) = (if ws = [] then w else w @ sep @ str_join sep ws)"
  by (cases ws) simp_all

lemma str_join_eq_Nil:
  "(\<forall>v \<in> set ws. v \<noteq> []) \<Longrightarrow> str_join sep ws = [] \<longleftrightarrow> ws = []"
  by (cases ws) (simp_all add: str_join_Cons)

text \<open>
  The scan of \<open>split\<close>, generalised over the word read so far: joining the words of
  the rest gives the squeezed rest, trimmed at the right, and also at the left when no
  word has been started.
\<close>

lemma join_split_from:
  "str_join '' '' (split_from w s) =
     (if w = [] then str_strip (squeeze s) else w @ str_rstrip (squeeze s))"
proof (induction s arbitrary: w)
  case Nil
  show ?case by (simp add: str_strip_def str_rstrip_def str_lstrip_def)
next
  case (Cons c cs)
  show ?case
  proof (cases "isspace c")
    case False
    with Cons.IH [of "w @ [c]"] show ?thesis
      by (simp add: squeeze_nonspace str_rstrip_Cons str_strip_def str_lstrip_def)
  next
    case True
    note sp = this
    have IH: "str_join '' '' (split_from [] cs) = str_strip (squeeze cs)"
      using Cons.IH [of "[]"] by simp
    have ne: "str_join '' '' (split_from [] cs) = [] \<longleftrightarrow> split_from [] cs = []"
      by (rule str_join_eq_Nil) (auto dest: split_from_words_nonempty)
    show ?thesis
    proof (cases "w = []")
      case True
      with sp IH show ?thesis
        by (simp add: squeeze_space str_strip_def str_lstrip_def isspace_space)
    next
      case False
      with sp IH ne show ?thesis
        by (auto simp: squeeze_space str_join_Cons str_rstrip_Cons str_strip_def isspace_space)
    qed
  qed
qed

lemma join_split_collapse: "str_join '' '' (str_split s) = collapse_whitespace s"
  by (simp add: str_split_def join_split_from collapse_whitespace_def)

lemma str_replace_delete: "str_replace c [] s = filter (\<lambda>x. x \<noteq> c) s"
  by (induction s) (simp_all add: str_replace_def)

lemma markers_removed:
  "str_replace (CHR ''>'') [] (str_replace (CHR ''`'') [] (str_replace (CHR ''*'') []
     (str_replace (CHR ''#'') [] txt))) = strip_markers txt"
  by (simp add: str_replace_delete strip_markers_def conj_commute conj_left_commute
      cong: filter_cong)

lemma get_post_preview_collapse:
  "get_post_preview txt n =
     (let collapsed = collapse_whitespace (strip_markers txt)
      in if int (length collapsed) > n then slice_to n collapsed @ ''...'' else collapsed)"
  by (simp add: get_post_preview_def markers_removed join_split_collapse Let_def)

text \<open>The shape of a collapsed text: its whitespace is single spaces between words.\<close>

lemma strip_markers_no_marker:
  "c \<in> set (strip_markers txt) \<Longrightarrow> c \<notin> {CHR ''#'', CHR ''*'', CHR ''`'', CHR ''>''}"
  by (simp add: strip_markers_def)

lemma squeeze_whitespace_is_space:
  "c \<in> set (squeeze s) \<Longrightarrow> isspace c \<Longrightarrow> c = CHR '' ''"
  by (induction s rule: squeeze.induct) (auto split: if_splits)

lemma set_str_strip: "set (str_strip s) \<subseteq> set s"
proof -
  have "set (str_rstrip x) \<subseteq> set x" for x
    using set_dropWhileD [of _ isspace "rev x"] by (auto simp: str_rstrip_def)
  moreover have "set (str_lstrip x) \<subseteq> set x" for x
    by (auto simp: str_lstrip_def dest: set_dropWhileD)
  ultimately show ?thesis
    unfolding str_strip_def by blast
qed

lemma collapse_whitespace_is_space:
  "c \<in> set (collapse_whitespace s) \<Longrightarrow> isspace c \<Longrightarrow> c = CHR '' ''"
  using set_str_strip [of "squeeze s"]
  by (auto simp: collapse_whitespace_def intro: squeeze_whitespace_is_space)

lemma str_strip_ends:
  assumes "str_strip s \<noteq> []"
  shows "\<not> isspace (hd (str_strip s))" and "\<not> isspace (last (str_strip s))"
proof -
  let ?l = "str_lstrip s"
  have l: "?l \<noteq> []" using assms by (auto simp: str_strip_def str_rstrip_def)
  have r: "dropWhile isspace (rev ?l) \<noteq> []"
    using assms by (simp add: str_strip_def str_rstrip_def)
  have "\<not> isspace (hd (dropWhile isspace (rev ?l)))"
    using r by (rule hd_dropWhile)
  then show "\<not> isspace (last (str_strip s))"
    using r by (simp add: str_strip_def str_rstrip_def last_rev)
  have "\<not> isspace (hd ?l)"
    using l unfolding str_lstrip_def by (rule hd_dropWhile)
  moreover have "hd (str_rstrip ?l) = hd ?l"
  proof -
    obtain c cs where lc: "?l = c # cs" using l by (cases ?l) auto
    with \<open>\<not> isspace (hd ?l)\<close> have "\<not> isspace c" by simp
    then show ?thesis by (simp add: lc str_rstrip_Cons)
  qed
  ultimately show "\<not> isspace (hd (str_strip s))"
    by (simp add: str_strip_def)
qed

lemma collapse_whitespace_ends:
  assumes "collapse_whitespace s \<noteq> []"
  shows "\<not> isspace (hd (collapse_whitespace s))" and "\<not> isspace (last (collapse_whitespace s))"
  using assms str_strip_ends [of "squeeze s"] by (simp_all add: collapse_whitespace_def)

lemma squeeze_no_run:
  "successively (\<lambda>a b. \<not> (isspace a \<and> isspace b)) (squeeze s)"
proof (induction s rule: squeeze.induct)
  case 1
  show ?case by simp
next
  case (2 c)
  show ?case by simp
next
  case (3 c d cs)
  then show ?case
    by (auto simp: successively_Cons squeeze_nonspace)
qed

lemma successively_dropWhile:
  "successively P xs \<Longrightarrow> successively P (dropWhile Q xs)"
  by (induction xs) (auto simp: successively_Cons)

lemma collapse_whitespace_no_run:
  "successively (\<lambda>a b. \<not> (isspace a \<and> isspace b)) (collapse_whitespace s)"
proof -
  let ?P = "\<lambda>a b. \<not> (isspace a \<and> isspace b)"
  let ?l = "str_lstrip (squeeze s)"
  have "successively ?P ?l"
    unfolding str_lstrip_def by (rule successively_dropWhile) (rule squeeze_no_run)
  then have "successively (\<lambda>a b. ?P b a) ?l"
    by (rule successively_mono) auto
  then have "successively ?P (rev ?l)"
    by (simp only: successively_rev)
  then have "successively ?P (dropWhile isspace (rev ?l))"
    by (rule successively_dropWhile)
  then have "successively (\<lambda>a b. ?P b a) (dropWhile isspace (rev ?l))"
    by (rule successively_mono) auto
  then have "successively ?P (rev (dropWhile isspace (rev ?l)))"
    by (simp only: successively_rev)
  then show ?thesis
    by (simp only: collapse_whitespace_def str_strip_def str_rstrip_def)
qed

section \<open>The preview\<close>

text \<open>
  Claim C7. For every body text and every \<open>max_length\<close>, a number of characters
  and so not negative, \<open>get_post_preview\<close> removes every \<open>#\<close>, \<open>*\<close>, backquote and
  \<open>>\<close>, collapses each run of whitespace to one space and trims both ends; when the collapsed text has more
  than \<open>max_length\<close> characters the result is exactly its first \<open>max_length\<close>
  characters followed by three dots, otherwise it is the collapsed text unchanged. The
  preview of \<open># Title *bold* `code`\<close> with length 200 is \<open>Title bold code\<close>, and a
  body whose collapsed form has fewer than 200 characters is returned collapsed, with
  no dots added.
\<close>

theorem get_post_preview_nonneg:
  assumes "0 \<le> max_length"
  shows "get_post_preview txt max_length = preview_spec txt max_length
    \<and> (max_length < int (length (collapse_whitespace (strip_markers txt))) \<longrightarrow>
         get_post_preview txt max_length
           = take (nat max_length) (collapse_whitespace (strip_markers txt)) @ ''...''
         \<and> int (length (take (nat max_length) (collapse_whitespace (strip_markers txt))))
           = max_length)
    \<and> (int (length (collapse_whitespace (strip_markers txt))) \<le> max_length \<longrightarrow>
         get_post_preview txt max_length = collapse_whitespace (strip_markers txt))
    \<and> get_post_preview ''# Title *bold* `code`'' 200 = ''Title bold code''
    \<and> (length (collapse_whitespace (strip_markers txt)) < 200 \<longrightarrow>
         get_post_preview txt 200 = collapse_whitespace (strip_markers txt))"
proof -
  have slice: "slice_to max_length xs = take (nat max_length) xs" for xs :: string
    using assms by (simp add: slice_to_def)
  have 1: "get_post_preview txt max_length = preview_spec txt max_length"
    by (simp add: get_post_preview_collapse preview_spec_def slice Let_def)
  have 2: "max_length < int (length (collapse_whitespace (strip_markers txt))) \<longrightarrow>
         get_post_preview txt max_length
           = take (nat max_length) (collapse_whitespace (strip_markers txt)) @ ''...''
         \<and> int (length (take (nat max_length) (collapse_whitespace (strip_markers txt))))
           = max_length"
    using assms by (simp add: get_post_preview_collapse slice Let_def)
  have 3: "int (length (collapse_whitespace (strip_markers txt))) \<le> max_length \<longrightarrow>
         get_post_preview txt max_length = collapse_whitespace (strip_markers txt)"
    by (simp add: get_post_preview_collapse Let_def)
  have 4: "get_post_preview ''# Title *bold* `code`'' 200 = ''Title bold code''"
    by (simp add: get_post_preview_def str_replace_def str_split_def isspace_def)
  have 5: "length (collapse_whitespace (strip_markers txt)) < 200 \<longrightarrow>
         get_post_preview txt 200 = collapse_whitespace (strip_markers txt)"
    by (simp add: get_post_preview_collapse Let_def)
  from 1 2 3 4 5 show ?thesis by blast
qed

text \<open>
  A body of 21 characters cut at 5: the markers go, the three spaces become one, and
  the first five characters of the collapsed text are kept.
\<close>

theorem get_post_preview_nonneg_witness:
  "(0::int) \<le> 5
   \<and> collapse_whitespace (strip_markers ''# Hello   wide *world*'') = ''Hello wide world''
   \<and> get_post_preview ''# Hello   wide *world*'' 5 = ''Hello...''"
proof -
  have c: "collapse_whitespace (strip_markers ''# Hello   wide *world*'') = ''Hello wide world''"
    by (simp add: collapse_whitespace_def strip_markers_def str_strip_def str_lstrip_def
        str_rstrip_def isspace_def)
  have h: "(0::int) \<le> 5" by simp
  note cut = get_post_preview_nonneg [OF h, of "''# Hello   wide *world*''",
      THEN conjunct2, THEN conjunct1]
  from cut c h show ?thesis by simp
qed

section \<open>The posts relation: statements and invariants\<close>

lemma post_id_less_next_rowid:
  "p \<in> set (rows s) \<Longrightarrow> post_id p < next_rowid s"
proof -
  have "p \<in> set ps \<Longrightarrow> post_id p \<le> foldr max (map post_id ps) k" for ps k
    by (induction ps) (auto simp: max_def)
  then show "p \<in> set (rows s) \<Longrightarrow> post_id p < next_rowid s"
    by (simp add: next_rowid_def less_Suc_eq_le)
qed

lemma find_append_None:
  "find P xs = None \<Longrightarrow> find P (xs @ ys) = find P ys"
  by (induction xs) (auto split: if_splits)

lemma select_by_id_sql_insert_new:
  "select_by_id (sql_insert s t b c u) (next_rowid s) =
     Some \<lparr>post_id = next_rowid s, title = t, body = b, created_at = c, updated_at = u\<rparr>"
proof -
  have "find (\<lambda>p. post_id p = next_rowid s) (rows s) = None"
    by (auto simp: find_None_iff dest: post_id_less_next_rowid)
  then show ?thesis
    by (simp add: select_by_id_def sql_insert_def find_append_None)
qed

lemma sql_update_absent:
  "select_by_id s i = None \<Longrightarrow> sql_update s t b u i = s"
proof -
  assume "select_by_id s i = None"
  then have "\<forall>p \<in> set (rows s). post_id p \<noteq> i"
    by (simp add: select_by_id_def find_None_iff)
  then have "map (\<lambda>p. if post_id p = i then p\<lparr>title := t, body := b, updated_at := u\<rparr>
                        else p) (rows s) = rows s"
    by (simp add: map_idI)
  then show ?thesis by (simp add: sql_update_def)
qed

lemma find_map_id:
  "(\<And>p. post_id (g p) = post_id p) \<Longrightarrow>
   find (\<lambda>p. post_id p = i) (map (\<lambda>p. if post_id p = i then g p else p) ps)
     = map_option g (find (\<lambda>p. post_id p = i) ps)"
  by (induction ps) simp_all

lemma select_by_id_sql_update:
  "select_by_id (sql_update s t b u i) i =
     map_option (\<lambda>p. p\<lparr>title := t, body := b, updated_at := u\<rparr>) (select_by_id s i)"
  by (simp add: select_by_id_def sql_update_def find_map_id)

lemma post_id_sql_update:
  "map post_id (rows (sql_update s t b u i)) = map post_id (rows s)"
proof -
  have "(post_id \<circ> (\<lambda>p. if post_id p = i then p\<lparr>title := t, body := b, updated_at := u\<rparr>
                          else p)) = post_id"
    by (rule ext) simp
  then show ?thesis by (simp add: sql_update_def)
qed

lemma sql_delete_idem: "sql_delete s i = Inr s' \<Longrightarrow> sql_delete s' i = Inr s'"
  by (auto simp: sql_delete_def split: if_splits)

lemma sql_delete_absent:
  assumes "select_by_id s i = None" and "i < 2 ^ 63"
  shows "sql_delete s i = Inr s"
proof -
  from assms(1) have "\<forall>p \<in> set (rows s). post_id p \<noteq> i"
    by (simp add: select_by_id_def find_None_iff)
  then have "filter (\<lambda>p. post_id p \<noteq> i) (rows s) = rows s"
    by (simp add: filter_id_conv)
  with assms(2) show ?thesis by (simp add: sql_delete_def)
qed

lemma select_by_id_sql_delete: "sql_delete s i = Inr s' \<Longrightarrow> select_by_id s' i = None"
  by (auto simp: select_by_id_def sql_delete_def find_None_iff split: if_splits)

text \<open>The primary key survives every statement.\<close>

lemma wf_store_sql_insert: "wf_store s \<Longrightarrow> wf_store (sql_insert s t b c u)"
  by (auto simp: wf_store_def sql_insert_def sorted_wrt_append dest: post_id_less_next_rowid)

lemma wf_store_sql_delete: "wf_store s \<Longrightarrow> sql_delete s i = Inr s' \<Longrightarrow> wf_store s'"
  by (auto simp: wf_store_def sql_delete_def sorted_wrt_map sorted_wrt_filter split: if_splits)

lemma wf_store_sql_update: "wf_store s \<Longrightarrow> wf_store (sql_update s t b u i)"
  by (simp add: wf_store_def post_id_sql_update)

lemma nonempty_fields_sql_insert:
  "nonempty_fields s \<Longrightarrow> t \<noteq> [] \<Longrightarrow> b \<noteq> [] \<Longrightarrow> nonempty_fields (sql_insert s t b c u)"
  by (simp add: nonempty_fields_def sql_insert_def)

lemma nonempty_fields_sql_update:
  "nonempty_fields s \<Longrightarrow> t \<noteq> [] \<Longrightarrow> b \<noteq> [] \<Longrightarrow> nonempty_fields (sql_update s t b u i)"
  by (auto simp: nonempty_fields_def sql_update_def list_all_iff)

lemma nonempty_fields_sql_delete:
  "nonempty_fields s \<Longrightarrow> sql_delete s i = Inr s' \<Longrightarrow> nonempty_fields s'"
  by (auto simp: nonempty_fields_def sql_delete_def list_all_iff split: if_splits)

subsection \<open>The sorted listing\<close>

lemma set_insert_desc: "set (insert_desc p qs) = insert p (set qs)"
  by (induction qs) auto

lemma mset_insert_desc: "mset (insert_desc p qs) = add_mset p (mset qs)"
  by (induction qs) auto

text \<open>
  Inserting a row whose id is below the ids of the rows already sorted keeps the
  listing newest first: the row passes the strictly newer rows and stops before the
  first row that is not newer, which has a larger id if it is as old.
\<close>

lemma newest_first_insert_desc:
  assumes "\<forall>q \<in> set qs. post_id p < post_id q" and "newest_first qs"
  shows "newest_first (insert_desc p qs)"
  using assms
proof (induction qs)
  case Nil
  then show ?case by (simp add: newest_first_def)
next
  case (Cons q qs)
  show ?case
  proof (cases "created_at p < created_at q")
    case True
    from Cons.prems have "newest_first qs" and "\<forall>x \<in> set qs. post_id p < post_id x"
      by (simp_all add: newest_first_def)
    with Cons.IH have "newest_first (insert_desc p qs)" by simp
    with True Cons.prems show ?thesis
      by (auto simp: newest_first_def set_insert_desc)
  next
    case False
    with Cons.prems show ?thesis
      by (fastforce simp: newest_first_def)
  qed
qed

lemma newest_first_foldr:
  "sorted_wrt (<) (map post_id ps) \<Longrightarrow> newest_first (foldr insert_desc ps [])"
proof (induction ps)
  case Nil
  then show ?case by (simp add: newest_first_def)
next
  case (Cons p ps)
  have "set (foldr insert_desc ps []) = set ps"
    by (induction ps) (simp_all add: set_insert_desc)
  with Cons show ?case
    by (simp add: newest_first_insert_desc)
qed

text \<open>Whatever the ids, \<open>created_at\<close> never increases along the sorted rows.\<close>

lemma descending_insert_desc:
  "sorted_wrt (\<lambda>p q. created_at q \<le> created_at p) qs \<Longrightarrow>
   sorted_wrt (\<lambda>p q. created_at q \<le> created_at p) (insert_desc p qs)"
proof (induction qs)
  case Nil
  show ?case by simp
next
  case (Cons q qs)
  then show ?case
    by (auto simp: set_insert_desc intro: order_trans)
qed

lemma descending_select_all_desc:
  "sorted_wrt (\<lambda>p q. created_at q \<le> created_at p) (select_all_desc s)"
proof -
  have "sorted_wrt (\<lambda>p q. created_at q \<le> created_at p) (foldr insert_desc ps [])" for ps
    by (induction ps) (simp_all add: descending_insert_desc)
  then show ?thesis by (simp add: select_all_desc_def)
qed

lemma mset_select_all_desc: "mset (select_all_desc s) = mset (rows s)"
proof -
  have "mset (foldr insert_desc ps []) = mset ps" for ps
    by (induction ps) (simp_all add: mset_insert_desc)
  then show ?thesis by (simp add: select_all_desc_def)
qed

lemma posts_with_preview_map: "posts_with_preview ps = map with_preview ps"
  by (induction ps) simp_all

lemma newest_first_with_preview:
  "newest_first (posts_with_preview ps) = newest_first ps"
  by (simp add: posts_with_preview_map newest_first_def sorted_wrt_map with_preview_def)

lemma listing_of_select_all:
  "wf_store s \<Longrightarrow> listing_of s (posts_with_preview (select_all_desc s))"
  unfolding listing_of_def newest_first_with_preview
  by (simp add: select_all_desc_def newest_first_foldr wf_store_def posts_with_preview_map
      flip: mset_map mset_select_all_desc [unfolded select_all_desc_def])

lemma select_all_desc_example: "map post_id (select_all_desc example_db) = [4, 1, 2]"
  by (simp add: select_all_desc_def example_db_def)

section \<open>The handlers\<close>

lemma create_post_invalid:
  "str_strip (form_get f ''title'' []) = [] \<or> str_strip (form_get f ''body'' []) = [] \<Longrightarrow>
   create_post now s f =
     (Inr \<lparr>status_code = 422, headers = [],
           payload = [Markup (flash_message ''Title and body are required.'' ''error'')]\<rparr>, s)"
  by (auto simp: create_post_def make_response_def Let_def)

lemma update_post_invalid:
  "str_strip (form_get f ''title'' []) = [] \<or> str_strip (form_get f ''body'' []) = [] \<Longrightarrow>
   update_post md now s i f =
     (Inr \<lparr>status_code = 422, headers = [],
           payload = [Markup (flash_message ''Title and body are required.'' ''error'')]\<rparr>, s)"
  by (auto simp: update_post_def make_response_def Let_def)

lemma form_get_absent: "map_of f k = None \<Longrightarrow> form_get f k d = d"
  by (simp add: form_get_def)

lemma create_post_valid:
  assumes "str_strip (form_get f ''title'' []) \<noteq> []"
    and "str_strip (form_get f ''body'' []) \<noteq> []"
  shows "create_post now s f =
     (Inr \<lparr>status_code = 200, headers = [(''HX-Push-Url'', ''/'')],
           payload = [Index_html (posts_with_preview (select_all_desc
                        (sql_insert s (str_strip (form_get f ''title'' []))
                                      (str_strip (form_get f ''body'' [])) now now))),
                      Markup (flash_message ''Post created successfully!'' ''success'')]\<rparr>,
      sql_insert s (str_strip (form_get f ''title'' []))
                   (str_strip (form_get f ''body'' [])) now now)"
  using assms by (simp add: create_post_def Let_def make_response_def set_header_def)

lemma update_post_valid:
  assumes "select_by_id s i = Some p"
    and "str_strip (form_get f ''title'' []) \<noteq> []"
    and "str_strip (form_get f ''body'' []) \<noteq> []"
  shows "update_post md now s i f =
     (Inr \<lparr>status_code = 200, headers = [],
           payload = [Post_html (p\<lparr>title := str_strip (form_get f ''title'' []),
                                   body := str_strip (form_get f ''body'' []),
                                   updated_at := now\<rparr>)
                        (render_markdown md (str_strip (form_get f ''body'' []))),
                      Markup (flash_message ''Post updated successfully!'' ''success'')]\<rparr>,
      sql_update s (str_strip (form_get f ''title'' []))
                   (str_strip (form_get f ''body'' [])) now i)"
  using assms
  by (simp add: update_post_def Let_def select_by_id_sql_update make_response_def)

lemma delete_post_eq:
  "sql_delete s i = Inr s' \<Longrightarrow>
   delete_post s i =
     (Inr \<lparr>status_code = 200, headers = [(''HX-Push-Url'', ''/'')],
           payload = [Index_html (posts_with_preview (select_all_desc s')),
                      Markup (flash_message ''Post deleted.'' ''success'')]\<rparr>,
      s')"
  by (simp add: delete_post_def Let_def make_response_def set_header_def)

lemma delete_post_overflow: "\<not> i < 2 ^ 63 \<Longrightarrow> delete_post s i = (Inl OverflowError, s)"
  by (simp add: delete_post_def sql_delete_def)

lemma snd_create_post:
  "snd (create_post now s f) =
     (if str_strip (form_get f ''title'' []) = [] \<or> str_strip (form_get f ''body'' []) = []
      then s
      else sql_insert s (str_strip (form_get f ''title'' []))
                        (str_strip (form_get f ''body'' [])) now now)"
  by (simp add: create_post_def Let_def)

lemma snd_update_post:
  "snd (update_post md now s i f) =
     (if str_strip (form_get f ''title'' []) = [] \<or> str_strip (form_get f ''body'' []) = []
      then s
      else sql_update s (str_strip (form_get f ''title'' []))
                        (str_strip (form_get f ''body'' [])) now i)"
  by (simp add: update_post_def Let_def split: option.split)

lemma snd_delete_post:
  "snd (delete_post s i) = (case sql_delete s i of Inl e \<Rightarrow> s | Inr s' \<Rightarrow> s')"
  by (simp add: delete_post_def Let_def split: sum.split)

lemma snd_read_only:
  "snd (index s) = s" "snd (new_post s) = s" "snd (view_post md s i) = s"
  "snd (edit_post s i) = s" "snd (confirm_delete s i) = s"
  by (simp_all add: index_def new_post_def view_post_def edit_post_def confirm_delete_def
      Let_def split: option.split)

subsection \<open>Invariants of the reachable databases\<close>

lemma nonempty_fields_handle:
  "nonempty_fields s \<Longrightarrow> nonempty_fields (snd (handle md now s req))"
  by (cases req)
    (auto simp: snd_read_only snd_create_post snd_update_post snd_delete_post
      nonempty_fields_sql_insert nonempty_fields_sql_update
      intro: nonempty_fields_sql_delete split: sum.split)

lemma wf_store_handle:
  "wf_store s \<Longrightarrow> wf_store (snd (handle md now s req))"
  by (cases req)
    (auto simp: snd_read_only snd_create_post snd_update_post snd_delete_post
      wf_store_sql_insert wf_store_sql_update
      intro: wf_store_sql_delete split: sum.split)

lemma nonempty_fields_insert_seeds:
  "nonempty_fields s \<Longrightarrow> list_all (\<lambda>post. fst post \<noteq> [] \<and> snd post \<noteq> []) posts \<Longrightarrow>
   nonempty_fields (insert_seeds now s posts)"
  by (induction posts arbitrary: s) (simp_all add: nonempty_fields_sql_insert)

lemma wf_store_insert_seeds:
  "wf_store s \<Longrightarrow> wf_store (insert_seeds now s posts)"
  by (induction posts arbitrary: s) (simp_all add: wf_store_sql_insert)

lemma seed_posts_nonempty:
  "list_all (\<lambda>post. fst post \<noteq> [] \<and> snd post \<noteq> []) seed_posts"
  by (simp add: seed_posts_def)

lemma nonempty_fields_init_db: "nonempty_fields (init_db now empty_db)"
proof -
  have "nonempty_fields empty_db"
    by (simp add: nonempty_fields_def empty_db_def)
  then have "nonempty_fields (insert_seeds now empty_db seed_posts)"
    by (rule nonempty_fields_insert_seeds) (rule seed_posts_nonempty)
  then show ?thesis
    by (simp add: init_db_def empty_db_def)
qed

lemma wf_store_init_db: "wf_store (init_db now empty_db)"
proof -
  have "wf_store empty_db"
    by (simp add: wf_store_def empty_db_def)
  then have "wf_store (insert_seeds now empty_db seed_posts)"
    by (rule wf_store_insert_seeds)
  then show ?thesis
    by (simp add: init_db_def empty_db_def)
qed

lemma reachable_wf_store: "reachable md s \<Longrightarrow> wf_store s"
  by (induction rule: reachable.induct) (simp_all add: wf_store_init_db wf_store_handle)

lemma wf_store_example_db: "wf_store example_db"
  by (simp add: wf_store_def example_db_def)

lemma example_form_valid:
  "str_strip (form_get example_form ''title'' []) = ''Hello''"
  "str_strip (form_get example_form ''body'' []) = ''World''"
  by (simp_all add: example_form_def form_get_def str_strip_def str_lstrip_def
      str_rstrip_def isspace_def)

section \<open>The claims\<close>

text \<open>
  Claim C1. An Update whose id refers to no stored post, with a title and a body that
  are non-empty after trimming, should fail with NotFound: status 404, an error flash
  as the only fragment, the store unchanged. The store is unchanged, but
  \<open>update_post\<close> does not answer 404: the \<open>UPDATE\<close> matches no row, \<open>fetchone()\<close>
  returns \<open>None\<close> and the handler raises \<open>TypeError\<close>. On the same database and id
  \<open>view_post\<close>, \<open>edit_post\<close> and \<open>confirm_delete\<close> do answer 404 with the error flash.
\<close>

theorem update_post_absent_id_raises:
  assumes "select_by_id s i = None"
    and "str_strip (form_get f ''title'' []) \<noteq> []"
    and "str_strip (form_get f ''body'' []) \<noteq> []"
  shows "update_post md now s i f = (Inl TypeError, s)
    \<and> view_post md s i =
        (Inr \<lparr>status_code = 404, headers = [],
              payload = [Markup (flash_message ''Post not found.'' ''error'')]\<rparr>, s)
    \<and> edit_post s i =
        (Inr \<lparr>status_code = 404, headers = [],
              payload = [Markup (flash_message ''Post not found.'' ''error'')]\<rparr>, s)
    \<and> confirm_delete s i =
        (Inr \<lparr>status_code = 404, headers = [],
              payload = [Markup (flash_message ''Post not found.'' ''error'')]\<rparr>, s)"
  using assms
  by (simp add: update_post_def Let_def sql_update_absent view_post_def edit_post_def
      confirm_delete_def make_response_def)

theorem update_post_absent_id_raises_witness:
  "select_by_id example_db 9 = None
   \<and> str_strip (form_get example_form ''title'' []) \<noteq> []
   \<and> str_strip (form_get example_form ''body'' []) \<noteq> []
   \<and> update_post example_md ''2024-06-01T12:00:00'' example_db 9 example_form
       = (Inl TypeError, example_db)"
proof -
  have a: "select_by_id example_db 9 = None"
    by (simp add: select_by_id_def example_db_def)
  have b: "str_strip (form_get example_form ''title'' []) \<noteq> []"
    and c: "str_strip (form_get example_form ''body'' []) \<noteq> []"
    by (simp_all add: example_form_valid)
  from update_post_absent_id_raises [OF a b c] a b c show ?thesis by blast
qed

text \<open>
  Claim C2, as amended. In every database that the application reaches from
  \<open>init_db\<close> on a new database by serving requests, no stored row has an empty title or
  an empty body: the handlers \<open>create_post\<close> and \<open>update_post\<close> reject an empty trimmed
  field before they write, and the sample posts are not empty. The check is the
  handlers' alone; the table accepts empty strings.
\<close>

theorem reachable_nonempty_fields:
  "reachable md s \<Longrightarrow> nonempty_fields s"
  by (induction rule: reachable.induct)
    (simp_all add: nonempty_fields_init_db nonempty_fields_handle)

theorem reachable_nonempty_fields_witness:
  "reachable example_md
     (snd (handle example_md ''2024-05-03T08:00:00'' (init_db ''2024-05-01T10:00:00'' empty_db)
             (POST_posts example_form)))
   \<and> nonempty_fields
     (snd (handle example_md ''2024-05-03T08:00:00'' (init_db ''2024-05-01T10:00:00'' empty_db)
             (POST_posts example_form)))"
proof -
  have "reachable example_md (init_db ''2024-05-01T10:00:00'' empty_db)"
    by (rule reachable.start)
  then have r: "reachable example_md
     (snd (handle example_md ''2024-05-03T08:00:00'' (init_db ''2024-05-01T10:00:00'' empty_db)
             (POST_posts example_form)))"
    by (rule reachable.step)
  from r reachable_nonempty_fields [OF r] show ?thesis by blast
qed

text \<open>
  Counterexample to C2 as stated, which has the store itself reject an empty title or
  body. The \<open>INSERT\<close> and the \<open>UPDATE\<close> that the handlers issue, run with empty
  strings, store them: the columns are \<open>NOT NULL\<close> and nothing else.
\<close>

theorem store_accepts_empty_fields:
  "rows (sql_insert empty_db [] [] ''2024-05-01T10:00:00'' ''2024-05-01T10:00:00'')
     = [\<lparr>post_id = 1, title = [], body = [],
         created_at = ''2024-05-01T10:00:00'', updated_at = ''2024-05-01T10:00:00''\<rparr>]
   \<and> \<not> nonempty_fields
         (sql_insert empty_db [] [] ''2024-05-01T10:00:00'' ''2024-05-01T10:00:00'')
   \<and> select_by_id (sql_update example_db [] [] ''2024-05-03T08:00:00'' 2) 2
     = Some \<lparr>post_id = 2, title = [], body = [],
             created_at = ''2024-05-01T10:00:00'', updated_at = ''2024-05-03T08:00:00''\<rparr>
   \<and> \<not> nonempty_fields (sql_update example_db [] [] ''2024-05-03T08:00:00'' 2)"
  by (simp add: sql_insert_def sql_update_def select_by_id_def next_rowid_def empty_db_def
      example_db_def nonempty_fields_def)

text \<open>
  Claim C3. In every database (ids unique and ascending in a table scan, as the primary
  key has them) the posts returned by List, and those in the list fragment of a
  successful Create and of a successful Delete (one whose id SQLite can bind, an id
  below \<open>2 ^ 63\<close>), are exactly the rows of the database as it is
  after the request, ordered by \<open>created_at\<close> descending, two posts with the same
  \<open>created_at\<close> in the order of their ids. The listing is computed from the database
  passed to the request; no handler keeps one from an earlier request.
\<close>

theorem listing_newest_first:
  assumes "wf_store s"
  shows "(\<exists>ps. index s = (Inr \<lparr>status_code = 200, headers = [],
                                payload = [Index_html ps]\<rparr>, s)
              \<and> listing_of s ps)
    \<and> (str_strip (form_get f ''title'' []) \<noteq> [] \<and> str_strip (form_get f ''body'' []) \<noteq> [] \<longrightarrow>
        (\<exists>ps s'. create_post now s f =
                    (Inr \<lparr>status_code = 200, headers = [(''HX-Push-Url'', ''/'')],
                          payload = [Index_html ps,
                                     Markup (flash_message ''Post created successfully!''
                                               ''success'')]\<rparr>, s')
                \<and> listing_of s' ps))
    \<and> (i < 2 ^ 63 \<longrightarrow>
        (\<exists>ps s'. delete_post s i =
                    (Inr \<lparr>status_code = 200, headers = [(''HX-Push-Url'', ''/'')],
                          payload = [Index_html ps,
                                     Markup (flash_message ''Post deleted.'' ''success'')]\<rparr>, s')
                \<and> listing_of s' ps))"
proof (intro conjI impI)
  show "\<exists>ps. index s = (Inr \<lparr>status_code = 200, headers = [],
                               payload = [Index_html ps]\<rparr>, s) \<and> listing_of s ps"
    using assms by (simp add: index_def Let_def make_response_def listing_of_select_all)
next
  assume valid: "str_strip (form_get f ''title'' []) \<noteq> [] \<and> str_strip (form_get f ''body'' []) \<noteq> []"
  let ?s' = "sql_insert s (str_strip (form_get f ''title'' []))
                          (str_strip (form_get f ''body'' [])) now now"
  have "wf_store ?s'" using assms by (rule wf_store_sql_insert)
  then have "listing_of ?s' (posts_with_preview (select_all_desc ?s'))"
    by (rule listing_of_select_all)
  with valid show "\<exists>ps s'. create_post now s f =
                    (Inr \<lparr>status_code = 200, headers = [(''HX-Push-Url'', ''/'')],
                          payload = [Index_html ps,
                                     Markup (flash_message ''Post created successfully!''
                                               ''success'')]\<rparr>, s')
                \<and> listing_of s' ps"
    by (simp add: create_post_valid)
next
  assume "i < 2 ^ 63"
  then obtain d where d: "sql_delete s i = Inr d"
    by (simp add: sql_delete_def)
  with assms have "wf_store d" by (rule wf_store_sql_delete)
  then have "listing_of d (posts_with_preview (select_all_desc d))"
    by (rule listing_of_select_all)
  then show "\<exists>ps s'. delete_post s i =
                    (Inr \<lparr>status_code = 200, headers = [(''HX-Push-Url'', ''/'')],
                          payload = [Index_html ps,
                                     Markup (flash_message ''Post deleted.'' ''success'')]\<rparr>, s')
                \<and> listing_of s' ps"
    by (simp add: delete_post_eq [OF d])
qed

theorem listing_newest_first_witness:
  "wf_store example_db
   \<and> str_strip (form_get example_form ''title'' []) \<noteq> []
   \<and> str_strip (form_get example_form ''body'' []) \<noteq> []
   \<and> (\<exists>ps. index example_db = (Inr \<lparr>status_code = 200, headers = [],
                                       payload = [Index_html ps]\<rparr>, example_db)
            \<and> listing_of example_db ps)
   \<and> (\<exists>ps s'. create_post ''2024-05-03T08:00:00'' example_db example_form =
                  (Inr \<lparr>status_code = 200, headers = [(''HX-Push-Url'', ''/'')],
                        payload = [Index_html ps,
                                   Markup (flash_message ''Post created successfully!''
                                             ''success'')]\<rparr>, s')
              \<and> listing_of s' ps)
   \<and> (2 :: nat) < 2 ^ 63
   \<and> (\<exists>ps s'. delete_post example_db 2 =
                  (Inr \<lparr>status_code = 200, headers = [(''HX-Push-Url'', ''/'')],
                        payload = [Index_html ps,
                                   Markup (flash_message ''Post deleted.'' ''success'')]\<rparr>, s')
              \<and> listing_of s' ps)"
proof -
  have b: "str_strip (form_get example_form ''title'' []) \<noteq> []"
    and c: "str_strip (form_get example_form ''body'' []) \<noteq> []"
    by (simp_all add: example_form_valid)
  have d: "(2 :: nat) < 2 ^ 63" by simp
  from listing_newest_first [OF wf_store_example_db, of example_form
      "''2024-05-03T08:00:00''" 2] wf_store_example_db b c d
  show ?thesis by blast
qed

text \<open>
  Claim C4. A Create or an Update whose title or body is empty after trimming is
  answered with status 422 and a body that is only the error flash; the store is
  unchanged. For Update the id is arbitrary: the answer is the same whether or not a
  post with that id exists, since the fields are checked before the store is touched.
\<close>

theorem invalid_fields_rejected:
  assumes "str_strip (form_get f ''title'' []) = [] \<or> str_strip (form_get f ''body'' []) = []"
  shows "create_post now s f =
      (Inr \<lparr>status_code = 422, headers = [],
            payload = [Markup (flash_message ''Title and body are required.'' ''error'')]\<rparr>, s)
    \<and> update_post md now s i f =
      (Inr \<lparr>status_code = 422, headers = [],
            payload = [Markup (flash_message ''Title and body are required.'' ''error'')]\<rparr>, s)"
  using assms by (simp only: create_post_invalid update_post_invalid simp_thms)

text \<open>A title of blanks, sent to an id that exists (2) and to one that does not (9).\<close>

theorem invalid_fields_rejected_witness:
  "str_strip (form_get [(''title'', ''   ''), (''body'', ''text'')] ''title'' []) = []
   \<and> select_by_id example_db 2 \<noteq> None
   \<and> select_by_id example_db 9 = None
   \<and> create_post ''2024-05-03T08:00:00'' example_db [(''title'', ''   ''), (''body'', ''text'')] =
      (Inr \<lparr>status_code = 422, headers = [],
            payload = [Markup (flash_message ''Title and body are required.'' ''error'')]\<rparr>,
       example_db)
   \<and> update_post example_md ''2024-05-03T08:00:00'' example_db 2
        [(''title'', ''   ''), (''body'', ''text'')] =
      (Inr \<lparr>status_code = 422, headers = [],
            payload = [Markup (flash_message ''Title and body are required.'' ''error'')]\<rparr>,
       example_db)
   \<and> update_post example_md ''2024-05-03T08:00:00'' example_db 9
        [(''title'', ''   ''), (''body'', ''text'')] =
      (Inr \<lparr>status_code = 422, headers = [],
            payload = [Markup (flash_message ''Title and body are required.'' ''error'')]\<rparr>,
       example_db)"
proof -
  let ?f = "[(''title'', ''   ''), (''body'', ''text'')]"
  have e: "str_strip (form_get ?f ''title'' []) = []"
    by (simp add: form_get_def str_strip_def str_lstrip_def str_rstrip_def isspace_def)
  then have h: "str_strip (form_get ?f ''title'' []) = [] \<or> str_strip (form_get ?f ''body'' []) = []"
    by (rule disjI1)
  have p: "select_by_id example_db 2 \<noteq> None" and a: "select_by_id example_db 9 = None"
    by (simp_all add: select_by_id_def example_db_def)
  from invalid_fields_rejected [OF h, of "''2024-05-03T08:00:00''" example_db example_md 2]
    invalid_fields_rejected [OF h, of "''2024-05-03T08:00:00''" example_db example_md 9]
    e p a
  show ?thesis by blast
qed

text \<open>
  Claim C5. For every title and body that are non-empty after trimming, Create
  succeeds and stores one new post, and Show-single on the id of that post answers 200
  with the single-post view of the stored row: its title is the stored (trimmed) title
  and its transformed body is the Markdown transformer applied to the stored body.
\<close>

theorem create_then_view:
  assumes "str_strip (form_get f ''title'' []) \<noteq> []"
    and "str_strip (form_get f ''body'' []) \<noteq> []"
  shows "\<exists>r s' p.
      create_post now s f = (Inr r, s') \<and> status_code r = 200
    \<and> rows s' = rows s @ [p]
    \<and> title p = str_strip (form_get f ''title'' [])
    \<and> post.body p = str_strip (form_get f ''body'' [])
    \<and> view_post md s' (post_id p) =
        (Inr \<lparr>status_code = 200, headers = [],
              payload = [Post_html p (md (post.body p) [''fenced_code'', ''tables''])]\<rparr>, s')"
proof -
  let ?t = "str_strip (form_get f ''title'' [])"
  let ?b = "str_strip (form_get f ''body'' [])"
  let ?p = "\<lparr>post_id = next_rowid s, title = ?t, body = ?b,
             created_at = now, updated_at = now\<rparr>"
  let ?s' = "sql_insert s ?t ?b now now"
  let ?r = "\<lparr>status_code = 200, headers = [(''HX-Push-Url'', ''/'')],
            payload = [Index_html (posts_with_preview (select_all_desc ?s')),
                       Markup (flash_message ''Post created successfully!'' ''success'')]\<rparr>"
  have 1: "create_post now s f = (Inr ?r, ?s')"
    using assms by (rule create_post_valid)
  have 2: "rows ?s' = rows s @ [?p]"
    by (simp add: sql_insert_def)
  have "select_by_id ?s' (next_rowid s) = Some ?p"
    by (rule select_by_id_sql_insert_new)
  then have 3: "view_post md ?s' (post_id ?p) =
        (Inr \<lparr>status_code = 200, headers = [],
              payload = [Post_html ?p (md (post.body ?p) [''fenced_code'', ''tables''])]\<rparr>, ?s')"
    by (simp add: view_post_def render_markdown_def make_response_def)
  from 1 2 3 show ?thesis
    by (intro exI [of _ ?r] exI [of _ ?s'] exI [of _ ?p]) simp
qed

theorem create_then_view_witness:
  "str_strip (form_get example_form ''title'' []) \<noteq> []
   \<and> str_strip (form_get example_form ''body'' []) \<noteq> []
   \<and> (\<exists>r s' p.
        create_post ''2024-05-03T08:00:00'' example_db example_form = (Inr r, s')
      \<and> status_code r = 200
      \<and> rows s' = rows example_db @ [p]
      \<and> title p = ''Hello''
      \<and> post.body p = ''World''
      \<and> view_post example_md s' (post_id p) =
          (Inr \<lparr>status_code = 200, headers = [],
                payload = [Post_html p ''<p>World</p>'']\<rparr>, s'))"
proof -
  have b: "str_strip (form_get example_form ''title'' []) \<noteq> []"
    and c: "str_strip (form_get example_form ''body'' []) \<noteq> []"
    by (simp_all add: example_form_valid)
  from create_then_view [OF b c, of "''2024-05-03T08:00:00''" example_db example_md]
  obtain r s' p where
    1: "create_post ''2024-05-03T08:00:00'' example_db example_form = (Inr r, s')"
    and 2: "status_code r = 200"
    and 3: "rows s' = rows example_db @ [p]"
    and 4: "title p = str_strip (form_get example_form ''title'' [])"
    and 5: "post.body p = str_strip (form_get example_form ''body'' [])"
    and 6: "view_post example_md s' (post_id p) =
        (Inr \<lparr>status_code = 200, headers = [],
              payload = [Post_html p (example_md (post.body p) [''fenced_code'', ''tables''])]\<rparr>,
         s')"
    by blast
  from 4 have t: "title p = ''Hello''"
    by (simp add: example_form_valid)
  from 5 have u: "post.body p = ''World''"
    by (simp add: example_form_valid)
  from 6 u have v: "view_post example_md s' (post_id p) =
          (Inr \<lparr>status_code = 200, headers = [],
                payload = [Post_html p ''<p>World</p>'']\<rparr>, s')"
    by (simp add: example_md_def)
  from b c 1 2 3 t u v show ?thesis by blast
qed

text \<open>
  Claim C6, as amended. For every id that SQLite can bind, an id below \<open>2 ^ 63\<close>,
  Delete does not fail, whether or not a post has the id: it answers 200 with the
  listing of the database as it is after the deletion (exactly its rows with their
  previews, \<open>created_at\<close> descending, ties in id order under the primary key), followed
  by the success flash. Only the rows with that id are removed. Deleting the same id
  again gives the same answer and leaves the database as the first deletion left it;
  when no post has the id, already the first deletion leaves the database unchanged.
\<close>

theorem delete_post_idempotent:
  assumes "i < 2 ^ 63"
  shows "\<exists>ps s'.
      delete_post s i =
        (Inr \<lparr>status_code = 200, headers = [(''HX-Push-Url'', ''/'')],
              payload = [Index_html ps,
                         Markup (flash_message ''Post deleted.'' ''success'')]\<rparr>, s')
    \<and> rows s' = filter (\<lambda>p. post_id p \<noteq> i) (rows s) \<and> seq s' = seq s
    \<and> select_by_id s' i = None
    \<and> mset ps = image_mset with_preview (mset (rows s'))
    \<and> sorted_wrt (\<lambda>p q. created_at q \<le> created_at p) ps
    \<and> (wf_store s \<longrightarrow> listing_of s' ps)
    \<and> delete_post s' i = delete_post s i
    \<and> (select_by_id s i = None \<longrightarrow> s' = s)"
proof -
  let ?d = "s\<lparr>rows := filter (\<lambda>p. post_id p \<noteq> i) (rows s)\<rparr>"
  let ?ps = "posts_with_preview (select_all_desc ?d)"
  from assms have d: "sql_delete s i = Inr ?d"
    by (simp add: sql_delete_def)
  have 1: "delete_post s i =
        (Inr \<lparr>status_code = 200, headers = [(''HX-Push-Url'', ''/'')],
              payload = [Index_html ?ps,
                         Markup (flash_message ''Post deleted.'' ''success'')]\<rparr>, ?d)"
    by (rule delete_post_eq [OF d])
  have 2: "rows ?d = filter (\<lambda>p. post_id p \<noteq> i) (rows s)" and 3: "seq ?d = seq s"
    by simp_all
  have 4: "select_by_id ?d i = None"
    by (rule select_by_id_sql_delete [OF d])
  have 5: "mset ?ps = image_mset with_preview (mset (rows ?d))"
    by (simp only: posts_with_preview_map mset_map mset_select_all_desc)
  have 6: "sorted_wrt (\<lambda>p q. created_at q \<le> created_at p) ?ps"
    using descending_select_all_desc [of ?d]
    by (simp add: posts_with_preview_map sorted_wrt_map with_preview_def)
  have 7: "wf_store s \<longrightarrow> listing_of ?d ?ps"
    using d by (auto intro: listing_of_select_all wf_store_sql_delete)
  have "delete_post ?d i = delete_post s i"
    using sql_delete_idem [OF d] by (simp only: delete_post_eq [OF d] delete_post_eq)
  then have 8: "delete_post ?d i = delete_post s i" .
  have 9: "select_by_id s i = None \<longrightarrow> ?d = s"
    using d assms by (auto dest: sql_delete_absent)
  show ?thesis
    by (intro exI [of _ ?ps] exI [of _ ?d] conjI) (rule 1 2 3 4 5 6 7 8 9)+
qed

text \<open>
  Id 9, which no post of the example has: the answer lists posts 4, 1 and 2 and the
  database stays as it is, also the second time.
\<close>

theorem delete_post_idempotent_witness:
  "(9 :: nat) < 2 ^ 63
   \<and> select_by_id example_db 9 = None
   \<and> wf_store example_db
   \<and> (\<exists>ps. delete_post example_db 9 =
          (Inr \<lparr>status_code = 200, headers = [(''HX-Push-Url'', ''/'')],
                payload = [Index_html ps,
                           Markup (flash_message ''Post deleted.'' ''success'')]\<rparr>,
           example_db)
        \<and> map post_id ps = [4, 1, 2]
        \<and> listing_of example_db ps
        \<and> delete_post (snd (delete_post example_db 9)) 9 = delete_post example_db 9)"
proof -
  have h: "(9 :: nat) < 2 ^ 63" by simp
  have a: "select_by_id example_db 9 = None"
    by (simp add: select_by_id_def example_db_def)
  from delete_post_idempotent [OF h, of example_db] obtain ps s' where
    1: "delete_post example_db 9 =
        (Inr \<lparr>status_code = 200, headers = [(''HX-Push-Url'', ''/'')],
              payload = [Index_html ps,
                         Markup (flash_message ''Post deleted.'' ''success'')]\<rparr>, s')"
    and 2: "wf_store example_db \<longrightarrow> listing_of s' ps"
    and 3: "delete_post s' 9 = delete_post example_db 9"
    and 4: "select_by_id example_db 9 = None \<longrightarrow> s' = example_db"
    by (elim exE conjE) (rule that)
  from 4 a have s': "s' = example_db" by simp
  from 2 s' wf_store_example_db have l: "listing_of example_db ps" by simp
  have "delete_post example_db 9 =
        (Inr \<lparr>status_code = 200, headers = [(''HX-Push-Url'', ''/'')],
              payload = [Index_html (posts_with_preview (select_all_desc example_db)),
                         Markup (flash_message ''Post deleted.'' ''success'')]\<rparr>, example_db)"
    by (rule delete_post_eq) (rule sql_delete_absent [OF a h])
  with 1 have "ps = posts_with_preview (select_all_desc example_db)" by simp
  then have ids: "map post_id ps = [4, 1, 2]"
    using select_all_desc_example
    by (simp add: posts_with_preview_map with_preview_def comp_def)
  from 1 s' have r: "delete_post example_db 9 =
          (Inr \<lparr>status_code = 200, headers = [(''HX-Push-Url'', ''/'')],
                payload = [Index_html ps,
                           Markup (flash_message ''Post deleted.'' ''success'')]\<rparr>,
           example_db)" by simp
  from 3 s' r have again: "delete_post (snd (delete_post example_db 9)) 9
      = delete_post example_db 9" by simp
  show ?thesis
    by (intro conjI exI [of _ ps]) (rule h a wf_store_example_db r ids l again)+
qed

text \<open>
  Counterexample to C6 as stated, which has Delete never fail for every id. The
  route accepts any id written in digits; for \<open>DELETE /posts/9223372036854775808\<close> the
  id is \<open>2 ^ 63\<close>, binding it raises \<open>OverflowError\<close> and the request ends without a
  response of the handler.
\<close>

theorem delete_post_unbindable_id:
  "(9223372036854775808 :: nat) = 2 ^ 63
   \<and> delete_post example_db 9223372036854775808 = (Inl OverflowError, example_db)"
  by (simp add: delete_post_def sql_delete_def)

text \<open>
  Claim C8, as amended. A successful Update of an existing post (the fields non-empty
  after trimming) answers 200 with the single-post view of the updated row and the
  success flash. The row keeps its id and its \<open>created_at\<close>, takes the trimmed title
  and body, and its \<open>updated_at\<close> becomes the clock reading of the request; that value
  is at least the previous \<open>updated_at\<close> exactly when the clock reading is. No row with
  another id changes, no row is added or removed, and no \<open>created_at\<close> changes.
\<close>

theorem update_post_frame:
  assumes "select_by_id s i = Some p"
    and "str_strip (form_get f ''title'' []) \<noteq> []"
    and "str_strip (form_get f ''body'' []) \<noteq> []"
  shows "\<exists>p' s'.
      update_post md now s i f =
        (Inr \<lparr>status_code = 200, headers = [],
              payload = [Post_html p' (md (post.body p') [''fenced_code'', ''tables'']),
                         Markup (flash_message ''Post updated successfully!'' ''success'')]\<rparr>, s')
    \<and> select_by_id s' i = Some p'
    \<and> post_id p' = post_id p \<and> created_at p' = created_at p \<and> updated_at p' = now
    \<and> title p' = str_strip (form_get f ''title'' [])
    \<and> post.body p' = str_strip (form_get f ''body'' [])
    \<and> (updated_at p \<le> updated_at p' \<longleftrightarrow> updated_at p \<le> now)
    \<and> map created_at (rows s') = map created_at (rows s)
    \<and> map post_id (rows s') = map post_id (rows s)
    \<and> (\<forall>k < length (rows s). post_id (rows s ! k) \<noteq> i \<longrightarrow> rows s' ! k = rows s ! k)
    \<and> seq s' = seq s"
proof -
  let ?t = "str_strip (form_get f ''title'' [])"
  let ?b = "str_strip (form_get f ''body'' [])"
  let ?p' = "p\<lparr>title := ?t, body := ?b, updated_at := now\<rparr>"
  let ?s' = "sql_update s ?t ?b now i"
  have 1: "update_post md now s i f =
        (Inr \<lparr>status_code = 200, headers = [],
              payload = [Post_html ?p' (md (post.body ?p') [''fenced_code'', ''tables'']),
                         Markup (flash_message ''Post updated successfully!'' ''success'')]\<rparr>, ?s')"
    using update_post_valid [OF assms] by (simp add: render_markdown_def)
  have 2: "select_by_id ?s' i = Some ?p'"
    using assms(1) by (simp add: select_by_id_sql_update)
  have 3: "map created_at (rows ?s') = map created_at (rows s)"
    by (simp add: sql_update_def comp_def if_distrib cong: if_cong)
  have 4: "map post_id (rows ?s') = map post_id (rows s)"
    by (rule post_id_sql_update)
  have 5: "\<forall>k < length (rows s). post_id (rows s ! k) \<noteq> i \<longrightarrow> rows ?s' ! k = rows s ! k"
    by (simp add: sql_update_def)
  have 6: "seq ?s' = seq s"
    by (simp add: sql_update_def)
  from 1 2 3 4 5 6 show ?thesis
    by (intro exI [of _ ?p'] exI [of _ ?s']) simp
qed

text \<open>Post 4 of the example, edited on the next day; posts 1 and 2 stay as they are.\<close>

theorem update_post_frame_witness:
  "select_by_id example_db 4 =
       Some \<lparr>post_id = 4, title = ''Fourth'', body = ''four'',
             created_at = ''2024-05-02T09:30:00.250000'',
             updated_at = ''2024-05-02T09:45:00''\<rparr>
   \<and> str_strip (form_get example_form ''title'' []) \<noteq> []
   \<and> str_strip (form_get example_form ''body'' []) \<noteq> []
   \<and> (\<exists>p' s'.
        update_post example_md ''2024-05-03T08:00:00'' example_db 4 example_form =
          (Inr \<lparr>status_code = 200, headers = [],
                payload = [Post_html p' ''<p>World</p>'',
                           Markup (flash_message ''Post updated successfully!'' ''success'')]\<rparr>,
           s')
      \<and> p' = \<lparr>post_id = 4, title = ''Hello'', body = ''World'',
                created_at = ''2024-05-02T09:30:00.250000'',
                updated_at = ''2024-05-03T08:00:00''\<rparr>
      \<and> select_by_id s' 4 = Some p'
      \<and> select_by_id s' 1 = select_by_id example_db 1
      \<and> select_by_id s' 2 = select_by_id example_db 2
      \<and> map post_id (rows s') = [1, 2, 4])"
proof -
  let ?p = "\<lparr>post_id = 4, title = ''Fourth'', body = ''four'',
             created_at = ''2024-05-02T09:30:00.250000'',
             updated_at = ''2024-05-02T09:45:00''\<rparr>"
  have a: "select_by_id example_db 4 = Some ?p"
    by (simp add: select_by_id_def example_db_def)
  have b: "str_strip (form_get example_form ''title'' []) \<noteq> []"
    and c: "str_strip (form_get example_form ''body'' []) \<noteq> []"
    by (simp_all add: example_form_valid)
  from update_post_frame [OF a b c, of example_md "''2024-05-03T08:00:00''"]
  obtain p' s' where
    1: "update_post example_md ''2024-05-03T08:00:00'' example_db 4 example_form =
        (Inr \<lparr>status_code = 200, headers = [],
              payload = [Post_html p' (example_md (post.body p') [''fenced_code'', ''tables'']),
                         Markup (flash_message ''Post updated successfully!'' ''success'')]\<rparr>, s')"
    and 2: "select_by_id s' 4 = Some p'"
    and 3: "post_id p' = post_id ?p" "created_at p' = created_at ?p"
      "updated_at p' = ''2024-05-03T08:00:00''"
      "title p' = str_strip (form_get example_form ''title'' [])"
      "post.body p' = str_strip (form_get example_form ''body'' [])"
    and 4: "map post_id (rows s') = map post_id (rows example_db)"
    and 5: "\<forall>k < length (rows example_db).
              post_id (rows example_db ! k) \<noteq> 4 \<longrightarrow> rows s' ! k = rows example_db ! k"
    by blast
  from 3 have p': "p' = \<lparr>post_id = 4, title = ''Hello'', body = ''World'',
                created_at = ''2024-05-02T09:30:00.250000'',
                updated_at = ''2024-05-03T08:00:00''\<rparr>"
    by (cases p') (simp add: example_form_valid)
  from 1 p' have r: "update_post example_md ''2024-05-03T08:00:00'' example_db 4 example_form =
          (Inr \<lparr>status_code = 200, headers = [],
                payload = [Post_html p' ''<p>World</p>'',
                           Markup (flash_message ''Post updated successfully!'' ''success'')]\<rparr>,
           s')"
    by (simp add: example_md_def)
  from 4 have ids: "map post_id (rows s') = [1, 2, 4]"
    by (simp add: example_db_def)
  then have len: "length (rows s') = 3"
    by (metis length_map length_Cons list.size(3) numeral_3_eq_3)
  from 5 have "rows s' ! 0 = rows example_db ! 0" "rows s' ! 1 = rows example_db ! 1"
    by (simp_all add: example_db_def)
  with len have others: "select_by_id s' 1 = select_by_id example_db 1"
    "select_by_id s' 2 = select_by_id example_db 2"
    by (cases "rows s'"; cases "tl (rows s')"; simp add: select_by_id_def example_db_def)+
  show ?thesis
    by (intro conjI exI [of _ p'] exI [of _ s']) (rule a b c r p' 2 others ids)+
qed

text \<open>
  Counterexample to C8 as stated, which has \<open>updated_at\<close> never decrease. The handler
  stores the reading of the local wall clock whatever the row holds: a post edited at
  01:59 and edited again at 01:00:30, after the clock was set back an hour, ends with
  an \<open>updated_at\<close> below its previous value (and below its \<open>created_at\<close>).
\<close>

theorem update_post_clock_set_back:
  "select_by_id clock_db 1 =
       Some \<lparr>post_id = 1, title = ''Night'', body = ''shift'',
             created_at = ''2024-11-03T01:30:00'', updated_at = ''2024-11-03T01:59:00''\<rparr>
   \<and> update_post example_md ''2024-11-03T01:00:30'' clock_db 1 example_form =
       (Inr \<lparr>status_code = 200, headers = [],
             payload = [Post_html \<lparr>post_id = 1, title = ''Hello'', body = ''World'',
                                   created_at = ''2024-11-03T01:30:00'',
                                   updated_at = ''2024-11-03T01:00:30''\<rparr> ''<p>World</p>'',
                        Markup (flash_message ''Post updated successfully!'' ''success'')]\<rparr>,
        \<lparr>rows = [\<lparr>post_id = 1, title = ''Hello'', body = ''World'',
                   created_at = ''2024-11-03T01:30:00'',
                   updated_at = ''2024-11-03T01:00:30''\<rparr>],
         seq = 1\<rparr>)
   \<and> ''2024-11-03T01:00:30'' < ''2024-11-03T01:59:00''
   \<and> \<not> ''2024-11-03T01:59:00'' \<le> ''2024-11-03T01:00:30''"
proof -
  have a: "select_by_id clock_db 1 =
       Some \<lparr>post_id = 1, title = ''Night'', body = ''shift'',
             created_at = ''2024-11-03T01:30:00'', updated_at = ''2024-11-03T01:59:00''\<rparr>"
    by (simp add: select_by_id_def clock_db_def)
  have b: "str_strip (form_get example_form ''title'' []) \<noteq> []"
    and c: "str_strip (form_get example_form ''body'' []) \<noteq> []"
    by (simp_all add: example_form_valid)
  have u: "update_post example_md ''2024-11-03T01:00:30'' clock_db 1 example_form =
       (Inr \<lparr>status_code = 200, headers = [],
             payload = [Post_html \<lparr>post_id = 1, title = ''Hello'', body = ''World'',
                                   created_at = ''2024-11-03T01:30:00'',
                                   updated_at = ''2024-11-03T01:00:30''\<rparr> ''<p>World</p>'',
                        Markup (flash_message ''Post updated successfully!'' ''success'')]\<rparr>,
        \<lparr>rows = [\<lparr>post_id = 1, title = ''Hello'', body = ''World'',
                   created_at = ''2024-11-03T01:30:00'',
                   updated_at = ''2024-11-03T01:00:30''\<rparr>],
         seq = 1\<rparr>)"
    using update_post_valid [OF a b c, of example_md "''2024-11-03T01:00:30''"]
    by (simp add: example_form_valid render_markdown_def example_md_def sql_update_def
        clock_db_def)
  have lt: "''2024-11-03T01:00:30'' < ''2024-11-03T01:59:00''"
    by simp
  have nle: "\<not> ''2024-11-03T01:59:00'' \<le> ''2024-11-03T01:00:30''"
    by simp
  from a u lt nle show ?thesis by blast
qed

text \<open>
  Claim C9. Of all responses, exactly those of a successful Create (status 200) and of
  a Delete carry the header \<open>HX-Push-Url\<close> with the value \<open>/\<close>; every other response
  (List, the forms, Show single, Update, the delete confirmation, and every 404 and
  422) carries no header set by the application.
\<close>

theorem push_url_header:
  assumes "fst (handle md now s req) = Inr r"
  shows "headers r =
     (if (\<exists>f. req = POST_posts f) \<and> status_code r = 200 \<or> (\<exists>i. req = DELETE_post i)
      then [(''HX-Push-Url'', ''/'')] else [])"
  using assms
  by (cases req)
    (auto simp: index_def new_post_def create_post_def view_post_def edit_post_def
      update_post_def delete_post_def confirm_delete_def make_response_def set_header_def
      Let_def split: option.splits sum.splits if_splits)

text \<open>A Delete, a successful Update and a rejected Create on the example database.\<close>

theorem push_url_header_witness:
  "(case fst (handle example_md ''2024-05-03T08:00:00'' example_db (DELETE_post 9)) of
      Inr r \<Rightarrow> status_code r = 200 \<and> headers r = [(''HX-Push-Url'', ''/'')]
    | Inl e \<Rightarrow> False)
   \<and> (case fst (handle example_md ''2024-05-03T08:00:00'' example_db (PUT_post 2 example_form)) of
      Inr r \<Rightarrow> status_code r = 200 \<and> headers r = []
    | Inl e \<Rightarrow> False)
   \<and> (case fst (handle example_md ''2024-05-03T08:00:00'' example_db (POST_posts [])) of
      Inr r \<Rightarrow> status_code r = 422 \<and> headers r = []
    | Inl e \<Rightarrow> False)"
proof -
  obtain r1 where 1: "fst (handle example_md ''2024-05-03T08:00:00'' example_db (DELETE_post 9))
      = Inr r1" and s1: "status_code r1 = 200"
    by (simp add: delete_post_def sql_delete_def make_response_def set_header_def)
  have p: "select_by_id example_db 2 = Some \<lparr>post_id = 2, title = ''Second'', body = ''two'',
                created_at = ''2024-05-01T10:00:00'', updated_at = ''2024-05-01T10:00:00''\<rparr>"
    by (simp add: select_by_id_def example_db_def)
  have b: "str_strip (form_get example_form ''title'' []) \<noteq> []"
    and c: "str_strip (form_get example_form ''body'' []) \<noteq> []"
    by (simp_all add: example_form_valid)
  obtain r2 where 2: "fst (handle example_md ''2024-05-03T08:00:00'' example_db
      (PUT_post 2 example_form)) = Inr r2" and s2: "status_code r2 = 200"
    by (simp add: update_post_valid [OF p b c])
  have "str_strip (form_get [] ''title'' []) = [] \<or> str_strip (form_get [] ''body'' []) = []"
    by (simp add: form_get_def str_strip_Nil)
  then obtain r3 where 3: "fst (handle example_md ''2024-05-03T08:00:00'' example_db
      (POST_posts [])) = Inr r3" and s3: "status_code r3 = 422"
    by (simp add: create_post_invalid)
  from push_url_header [OF 1] have h1: "headers r1 = [(''HX-Push-Url'', ''/'')]" by simp
  from push_url_header [OF 2] have h2: "headers r2 = []" by simp
  from push_url_header [OF 3] s3 have h3: "headers r3 = []" by simp
  from 1 2 3 s1 s2 s3 h1 h2 h3 show ?thesis by simp
qed

text \<open>
  Claim C10. When the form of a Create or an Update has no \<open>title\<close> field or no
  \<open>body\<close> field, the handler reads the missing field as the empty string and answers
  as for an empty field: status 422, the error flash alone, the store unchanged. The
  handler returns a response; it raises nothing.
\<close>

theorem absent_fields_rejected:
  assumes "map_of f ''title'' = None \<or> map_of f ''body'' = None"
  shows "(form_get f ''title'' [] = [] \<or> form_get f ''body'' [] = [])
    \<and> create_post now s f =
      (Inr \<lparr>status_code = 422, headers = [],
            payload = [Markup (flash_message ''Title and body are required.'' ''error'')]\<rparr>, s)
    \<and> update_post md now s i f =
      (Inr \<lparr>status_code = 422, headers = [],
            payload = [Markup (flash_message ''Title and body are required.'' ''error'')]\<rparr>, s)"
proof -
  from assms have e: "form_get f ''title'' [] = [] \<or> form_get f ''body'' [] = []"
    by (auto simp: form_get_absent)
  then have "str_strip (form_get f ''title'' []) = [] \<or> str_strip (form_get f ''body'' []) = []"
    by (auto simp: str_strip_Nil)
  with e show ?thesis
    by (simp only: create_post_invalid update_post_invalid simp_thms)
qed

text \<open>A form with a title and no body field, and a form with no field at all.\<close>

theorem absent_fields_rejected_witness:
  "map_of [(''title'', ''Only a title'')] ''body'' = None
   \<and> create_post ''2024-05-03T08:00:00'' example_db [(''title'', ''Only a title'')] =
      (Inr \<lparr>status_code = 422, headers = [],
            payload = [Markup (flash_message ''Title and body are required.'' ''error'')]\<rparr>,
       example_db)
   \<and> update_post example_md ''2024-05-03T08:00:00'' example_db 2 [] =
      (Inr \<lparr>status_code = 422, headers = [],
            payload = [Markup (flash_message ''Title and body are required.'' ''error'')]\<rparr>,
       example_db)"
proof -
  have a: "map_of [(''title'', ''Only a title'')] ''body'' = None"
    by simp
  then have h: "map_of [(''title'', ''Only a title'')] ''title'' = None
      \<or> map_of [(''title'', ''Only a title'')] ''body'' = None"
    by (rule disjI2)
  have k: "map_of ([] :: form) ''title'' = None \<or> map_of ([] :: form) ''body'' = None"
    by simp
  from absent_fields_rejected [OF h, of "''2024-05-03T08:00:00''" example_db]
    absent_fields_rejected [OF k, of "''2024-05-03T08:00:00''" example_db example_md 2] a
  show ?thesis by blast
qed

end
